theory Spec2Isabelle
  imports Complex_Main
begin

section \<open>Budget categories (src/budget.py, class Category)\<close>

text \<open>
  Amounts are Python numbers added to a float balance. The embedding keeps the amount type
  \<open>'a\<close> abstract: the definitions use only the operations the source applies to amounts
  (\<open>+\<close>, \<open>-\<close>, unary minus, \<open>>\<close>, division and \<open>floor\<close> in the chart, and the constant
  zero), and every theorem states in its sort which laws of exact arithmetic it relies on.
  Rounding, infinities and NaN of IEEE floats are outside these laws.
\<close>

text \<open>A ledger item, \<open>{"amount": ..., "description": ...}\<close>.\<close>

record 'a entry =
  amount :: 'a
  description :: string

record 'a category =
  name :: string
  balance :: 'a
  amount_withdrawn :: 'a
  ledger :: "'a entry list"

text \<open>\<open>Category.__init__\<close>.\<close>

definition init_category :: "string \<Rightarrow> 'a::zero category" where
  "init_category category_name =
     \<lparr>name = category_name, balance = 0, amount_withdrawn = 0, ledger = []\<rparr>"

text \<open>\<open>Category.deposit\<close>: no check of the amount; the entry is appended to the ledger.\<close>

definition deposit :: "'a::plus category \<Rightarrow> 'a \<Rightarrow> string \<Rightarrow> 'a category" where
  "deposit self amt descr =
     self\<lparr>balance := balance self + amt,
          ledger := ledger self @ [\<lparr>amount = amt, description = descr\<rparr>]\<rparr>"

text \<open>\<open>Category.check_funds\<close>: \<open>return False if amount > self.balance else True\<close>.\<close>

definition check_funds :: "'a::ord category \<Rightarrow> 'a \<Rightarrow> bool" where
  "check_funds self amt = (if amt > balance self then False else True)"

text \<open>
  \<open>Category.withdraw\<close>. The class attribute \<open>Category.total_withdrawn\<close> is passed in and
  returned: the result is the returned bool, the updated object and the updated total.
\<close>

definition withdraw ::
  "'a::{ord,plus,minus,uminus} category \<Rightarrow> 'a \<Rightarrow> 'a \<Rightarrow> string \<Rightarrow> bool \<times> 'a category \<times> 'a" where
  "withdraw self tot amt descr =
     (if check_funds self amt then
        (True,
         self\<lparr>balance := balance self - amt,
              amount_withdrawn := amount_withdrawn self + amt,
              ledger := ledger self @ [\<lparr>amount = - amt, description = descr\<rparr>]\<rparr>,
         tot + amt)
      else (False, self, tot))"

text \<open>\<open>Category.get_balance\<close>.\<close>

definition get_balance :: "'a category \<Rightarrow> 'a" where
  "get_balance self = balance self"

subsection \<open>The report, \<open>Category.__str__\<close>\<close>

text \<open>
  \<open>str.center\<close>, \<open>str.ljust\<close> and \<open>str.rjust\<close> as CPython pads: a string at least as wide as
  the field is returned as it is; \<open>center\<close> puts \<open>marg // 2 + (marg & width & 1)\<close> fill
  characters on the left and the rest on the right. A \<open>string\<close> is a list of bytes, so
  lengths agree with Python's for ASCII text.
\<close>

definition center :: "string \<Rightarrow> nat \<Rightarrow> char \<Rightarrow> string" where
  "center s width fillchar =
     (if width \<le> length s then s
      else (let marg = width - length s;
                left = marg div 2 + (if odd marg \<and> odd width then 1 else 0)
            in replicate left fillchar @ s @ replicate (marg - left) fillchar))"

definition ljust :: "string \<Rightarrow> nat \<Rightarrow> char \<Rightarrow> string" where
  "ljust s width fillchar = s @ replicate (width - length s) fillchar"

definition rjust :: "string \<Rightarrow> nat \<Rightarrow> char \<Rightarrow> string" where
  "rjust s width fillchar = replicate (width - length s) fillchar @ s"

text \<open>
  \<open>Category.__str__\<close>. Python's formatting of a number is a built-in, not code of the
  repository: \<open>format_2f\<close> stands for \<open>f"{x:.2f}"\<close> and \<open>str_float\<close> for \<open>f"{x}"\<close>. The slices
  \<open>[0:23]\<close> and \<open>[0:7]\<close> are \<open>take\<close>.
\<close>

definition str_category :: "('a \<Rightarrow> string) \<Rightarrow> ('a \<Rightarrow> string) \<Rightarrow> 'a category \<Rightarrow> string" where
  "str_category format_2f str_float self =
     (let string = [];
          string = string @ center (name self) 30 (CHR ''*'') @ [CHR 0x0A];
          string = fold (\<lambda>item string.
                     (let string = string @ ljust (take 23 (description item)) 23 (CHR '' '');
                          string = string @ rjust (take 7 (format_2f (amount item))) 7 (CHR '' '')
                      in string @ [CHR 0x0A]))
                   (ledger self) string
      in string @ ''Total: '' @ str_float (balance self))"

subsection \<open>The store of objects and the class attribute\<close>

text \<open>
  Categories are mutable objects that \<open>transfer\<close> reaches through two references, which
  may be the same object. The store is the list of the objects created so far, a reference
  is an index into it, and \<open>total_withdrawn\<close> is the class attribute shared by all of them.
\<close>

record 'a world =
  objs :: "'a category list"
  total_withdrawn :: 'a

definition init_world :: "'a::zero world" where
  "init_world = \<lparr>objs = [], total_withdrawn = 0\<rparr>"

definition call_deposit :: "'a::plus world \<Rightarrow> nat \<Rightarrow> 'a \<Rightarrow> string \<Rightarrow> 'a world" where
  "call_deposit w self amt descr =
     w\<lparr>objs := (objs w)[self := deposit (objs w ! self) amt descr]\<rparr>"

definition call_withdraw ::
  "'a::{ord,plus,minus,uminus} world \<Rightarrow> nat \<Rightarrow> 'a \<Rightarrow> string \<Rightarrow> bool \<times> 'a world" where
  "call_withdraw w self amt descr =
     (case withdraw (objs w ! self) (total_withdrawn w) amt descr of
        (ok, c, t) \<Rightarrow> (ok, w\<lparr>objs := (objs w)[self := c], total_withdrawn := t\<rparr>))"

text \<open>
  \<open>Category.transfer\<close>: one funds check, then \<open>self.withdraw\<close> (whose result is dropped)
  and \<open>category.deposit\<close>, each on the store as the previous call left it.
\<close>

definition transfer ::
  "'a::{ord,plus,minus,uminus} world \<Rightarrow> nat \<Rightarrow> 'a \<Rightarrow> nat \<Rightarrow> bool \<times> 'a world" where
  "transfer w self amt category =
     (if check_funds (objs w ! self) amt then
        (let w1 = snd (call_withdraw w self amt (''Transfer to '' @ name (objs w ! category)));
             w2 = call_deposit w1 category amt (''Transfer from '' @ name (objs w1 ! self))
         in (True, w2))
      else (False, w))"

subsection \<open>Sequences of operations\<close>

datatype 'a op =
    New string
  | Deposit nat 'a string
  | Withdraw nat 'a string
  | Transfer nat 'a nat

text \<open>What a call returns: \<open>None\<close> for the constructor and \<open>deposit\<close>, a bool otherwise.\<close>

datatype ret = RNone | RBool bool

text \<open>
  One call of client code. A reference to an object that was never created cannot be
  written in Python; the step has no result for it.
\<close>

fun step :: "'a::{zero,ord,plus,minus,uminus} world \<Rightarrow> 'a op \<Rightarrow> (ret \<times> 'a world) option" where
  "step w (New category_name) =
     Some (RNone, w\<lparr>objs := objs w @ [init_category category_name]\<rparr>)"
| "step w (Deposit i amt descr) =
     (if i < length (objs w) then Some (RNone, call_deposit w i amt descr) else None)"
| "step w (Withdraw i amt descr) =
     (if i < length (objs w)
      then (case call_withdraw w i amt descr of (ok, w') \<Rightarrow> Some (RBool ok, w'))
      else None)"
| "step w (Transfer i amt j) =
     (if i < length (objs w) \<and> j < length (objs w)
      then (case transfer w i amt j of (ok, w') \<Rightarrow> Some (RBool ok, w'))
      else None)"

fun run :: "'a::{zero,ord,plus,minus,uminus} world \<Rightarrow> 'a op list \<Rightarrow> 'a world option" where
  "run w [] = Some w"
| "run w (x # xs) = (case step w x of None \<Rightarrow> None | Some (r, w') \<Rightarrow> run w' xs)"

text \<open>
  The method calls a run makes on the objects, in order: \<open>deposit\<close> on an object, or
  \<open>withdraw\<close> on an object with the bool it returned. A transfer whose funds check fails
  calls neither.
\<close>

datatype call = CDeposit nat | CWithdraw nat bool

fun calls :: "'a::{zero,ord,plus,minus,uminus} world \<Rightarrow> 'a op \<Rightarrow> call list" where
  "calls w (New n) = []"
| "calls w (Deposit i amt descr) = [CDeposit i]"
| "calls w (Withdraw i amt descr) = [CWithdraw i (fst (call_withdraw w i amt descr))]"
| "calls w (Transfer i amt j) =
     (if check_funds (objs w ! i) amt
      then [CWithdraw i (fst (call_withdraw w i amt (''Transfer to '' @ name (objs w ! j)))),
            CDeposit j]
      else [])"

fun trace :: "'a::{zero,ord,plus,minus,uminus} world \<Rightarrow> 'a op list \<Rightarrow> call list" where
  "trace w [] = []"
| "trace w (x # xs) =
     (case step w x of None \<Rightarrow> [] | Some (r, w') \<Rightarrow> calls w x @ trace w' xs)"


fun nonzero_amount :: "'a::zero op \<Rightarrow> bool" where
  "nonzero_amount (New n) = True"
| "nonzero_amount (Deposit i amt descr) = (amt \<noteq> 0)"
| "nonzero_amount (Withdraw i amt descr) = (amt \<noteq> 0)"
| "nonzero_amount (Transfer i amt j) = (amt \<noteq> 0)"


section \<open>The spend chart (src/budget.py, create_spend_chart)\<close>

text \<open>
  The exceptions the function can raise: \<open>max\<close> of an empty list, and float division by
  zero.
\<close>

datatype error = ValueError | ZeroDivisionError

text \<open>
  The array has \<open>dtype=object\<close>: a cell is \<open>None\<close> until it is written, then an int (the
  axis) or a str. Rows are the first index, as in \<open>array[row, col]\<close>; the source writes the
  columns of the categories through the transposed view \<open>array.T[col, row]\<close>.
\<close>

datatype cell = Num int | Txt string

type_synonym chart = "cell option list list"

text \<open>\<open>max(names, key=len)\<close>: the first of the longest names; \<open>ValueError\<close> on no names.\<close>

fun max_by_len :: "string \<Rightarrow> string list \<Rightarrow> string" where
  "max_by_len best [] = best"
| "max_by_len best (x # xs) = max_by_len (if length x > length best then x else best) xs"

definition py_max_len :: "string list \<Rightarrow> error + string" where
  "py_max_len xs = (case xs of [] \<Rightarrow> Inl ValueError | x # ys \<Rightarrow> Inr (max_by_len x ys))"

text \<open>\<open>range(start, stop, step)\<close>; \<open>range(n)\<close> and \<open>range(a, b)\<close> on naturals are \<open>[0..<n]\<close>, \<open>[a..<b]\<close>.\<close>

definition py_range :: "int \<Rightarrow> int \<Rightarrow> int \<Rightarrow> int list" where
  "py_range start stop stp =
     (if stp > 0 then map (\<lambda>k. start + int k * stp) [0..<nat ((stop - start + stp - 1) div stp)]
      else if stp < 0
      then map (\<lambda>k. start + int k * stp) [0..<nat ((start - stop - stp - 1) div (- stp))]
      else [])"

text \<open>
  A bound of a slice on an axis of length \<open>n\<close>: a negative bound counts from the end, and
  the result is clipped to \<open>0..n\<close>.
\<close>

definition slice_index :: "nat \<Rightarrow> int \<Rightarrow> nat" where
  "slice_index n i = (if i < 0 then nat (max 0 (i + int n)) else min (nat i) n)"

definition np_empty :: "nat \<Rightarrow> nat \<Rightarrow> chart" where
  "np_empty nrows ncols = replicate nrows (replicate ncols None)"

text \<open>
  \<open>array[r, c] = v\<close>. Every index the function writes at is inside the array
  (\<open>longest_name + 12\<close> rows, \<open>3 * len(categories) + 3\<close> columns), so numpy's \<open>IndexError\<close>
  does not arise.
\<close>

definition set_cell :: "chart \<Rightarrow> nat \<Rightarrow> nat \<Rightarrow> cell \<Rightarrow> chart" where
  "set_cell a r c v = a[r := (a ! r)[c := Some v]]"

text \<open>\<open>str.capitalize\<close> on ASCII: the first letter in upper case, the others in lower case.\<close>

definition upper_char :: "char \<Rightarrow> char" where
  "upper_char c = (let n = (of_char c :: nat) in if 97 \<le> n \<and> n \<le> 122 then char_of (n - 32) else c)"

definition lower_char :: "char \<Rightarrow> char" where
  "lower_char c = (let n = (of_char c :: nat) in if 65 \<le> n \<and> n \<le> 90 then char_of (n + 32) else c)"

definition capitalize :: "string \<Rightarrow> string" where
  "capitalize s = (case s of [] \<Rightarrow> [] | c # cs \<Rightarrow> upper_char c # map lower_char cs)"

text \<open>
  \<open>(math.floor((obj.amount_withdrawn / Category.total_withdrawn) * 100) // 10) * 10\<close>; the
  division raises on a zero total.
\<close>

definition percentage_spent :: "'a::floor_ceiling category \<Rightarrow> 'a \<Rightarrow> error + int" where
  "percentage_spent obj tw =
     (if tw = 0 then Inl ZeroDivisionError
      else Inr ((\<lfloor>(amount_withdrawn obj / tw) * 100\<rfloor> div 10) * 10))"

text \<open>\<open>array.T[row, 10 - (percentage_spent // 10):11] = "o"\<close>, on the column \<open>col\<close>.\<close>

definition put_markers :: "chart \<Rightarrow> nat \<Rightarrow> int \<Rightarrow> chart" where
  "put_markers a col p =
     fold (\<lambda>r a. set_cell a r col (Txt ''o''))
       [slice_index (length a) (10 - p div 10)..<slice_index (length a) 11] a"

text \<open>The loop over \<open>zip(obj.name.capitalize(), range(12, 12 + longest_name))\<close>.\<close>

definition put_label :: "chart \<Rightarrow> nat \<Rightarrow> string \<Rightarrow> nat \<Rightarrow> chart" where
  "put_label a col nm longest_name =
     fold (\<lambda>(ch, index) a. set_cell a index col (Txt [ch]))
       (zip (capitalize nm) [12..<12 + longest_name]) a"

text \<open>
  The loop \<open>for row in range(3, (len(categories) * 3) + 3, 3)\<close>; the loop variable, named
  \<open>row\<close> in the source, is a column of the array.
\<close>

fun fill_columns ::
  "'a::floor_ceiling category list \<Rightarrow> 'a \<Rightarrow> nat \<Rightarrow> nat list \<Rightarrow> chart \<Rightarrow> error + chart" where
  "fill_columns categories tw longest_name [] a = Inr a"
| "fill_columns categories tw longest_name (row # rows) a =
     (let obj = categories ! (row div 3 - 1) in
      case percentage_spent obj tw of
        Inl e \<Rightarrow> Inl e
      | Inr p \<Rightarrow>
          fill_columns categories tw longest_name rows
            (put_label (put_markers a row p) row (name obj) longest_name))"

text \<open>
  \<open>build_array\<close>, with the class attribute \<open>Category.total_withdrawn\<close> as the argument \<open>tw\<close>:
  the empty array, the axis numbers, the pipes \<open>array[:11, 1]\<close>, the dashes \<open>array[11, 2:]\<close>,
  then the categories.
\<close>

definition build_array :: "'a::floor_ceiling category list \<Rightarrow> 'a \<Rightarrow> error + chart" where
  "build_array categories tw =
     (case py_max_len (map name categories) of
        Inl e \<Rightarrow> Inl e
      | Inr longest \<Rightarrow>
          (let longest_name = length longest;
               n = length categories;
               a0 = np_empty (longest_name + 12) (n + n * 2 + 3);
               a1 = fold (\<lambda>(row, num) a. set_cell a row 0 (Num num))
                      (zip [0..<12] (py_range 100 (- 10) (- 10))) a0;
               a2 = fold (\<lambda>r a. set_cell a r 1 (Txt ''|'')) [0..<slice_index (length a1) 11] a1;
               a3 = fold (\<lambda>c a. set_cell a 11 c (Txt ''-''))
                      [slice_index (n + n * 2 + 3) 2..<n + n * 2 + 3] a2
           in fill_columns categories tw longest_name
                (map nat (py_range 3 (int n * 3 + 3) 3)) a3))"

text \<open>The decimal digits of an int, as \<open>f"{cell}"\<close> prints the axis numbers.\<close>

function str_digits :: "int \<Rightarrow> string" where
  "str_digits n = (if n < 10 then [''0123456789'' ! nat n]
                   else str_digits (n div 10) @ [''0123456789'' ! nat (n mod 10)])"
  by pat_completeness auto
termination
  by (relation "measure nat") auto

declare str_digits.simps [simp del]

definition str_int :: "int \<Rightarrow> string" where
  "str_int i = (if i < 0 then CHR ''-'' # str_digits (- i) else str_digits i)"

definition show_cell :: "cell option \<Rightarrow> string" where
  "show_cell c = (case c of None \<Rightarrow> '' '' | Some (Num i) \<Rightarrow> str_int i | Some (Txt s) \<Rightarrow> s)"

text \<open>\<open>build_string\<close>: the two nested loops that append to \<open>string\<close>.\<close>

definition build_string :: "chart \<Rightarrow> string" where
  "build_string chart =
     fold (\<lambda>(index, row) s.
             fold (\<lambda>(subdex, cell) s.
                     (s @ (if subdex = 0
                           then (if index > 0 then '' '' else []) @ (if index \<ge> 10 then '' '' else [])
                           else [])) @ show_cell cell)
               (enumerate 0 row) s
             @ (if index + 1 < length chart then [CHR 0x0A] else []))
       (enumerate 0 chart) (''Percentage spent by category'' @ [CHR 0x0A])"

definition create_spend_chart :: "'a::floor_ceiling category list \<Rightarrow> 'a \<Rightarrow> error + string" where
  "create_spend_chart categories tw =
     (case build_array categories tw of
        Inl e \<Rightarrow> Inl e
      | Inr chart_array \<Rightarrow> Inr (build_string chart_array))"

text \<open>The array of \<open>build_array\<close> before its loop over the categories.\<close>

definition frame :: "nat \<Rightarrow> nat \<Rightarrow> chart" where
  "frame longest_name n =
     (let a0 = np_empty (longest_name + 12) (n + n * 2 + 3);
          a1 = fold (\<lambda>(row, num) a. set_cell a row 0 (Num num))
                 (zip [0..<12] (py_range 100 (- 10) (- 10))) a0;
          a2 = fold (\<lambda>r a. set_cell a r 1 (Txt ''|'')) [0..<slice_index (length a1) 11] a1
      in fold (\<lambda>c a. set_cell a 11 c (Txt ''-''))
           [slice_index (n + n * 2 + 3) 2..<n + n * 2 + 3] a2)"

section \<open>Example runs\<close>

text \<open>Two categories, a deposit, a withdrawal, a refused withdrawal and a transfer.\<close>

definition ops_demo :: "real op list" where
  "ops_demo = [New ''Food'', New ''Clothing'', Deposit 0 100 ''pay'', Withdraw 0 30 ''rent'',
               Withdraw 1 5 ''shirt'', Transfer 0 20 1]"


definition w_end :: "real world" where
  "w_end = \<lparr>objs = [\<lparr>name = ''Food'', balance = 50, amount_withdrawn = 50,
                       ledger = [\<lparr>amount = 100, description = ''pay''\<rparr>,
                                 \<lparr>amount = - 30, description = ''rent''\<rparr>,
                                 \<lparr>amount = - 20, description = ''Transfer to Clothing''\<rparr>]\<rparr>,
                     \<lparr>name = ''Clothing'', balance = 20, amount_withdrawn = 0,
                       ledger = [\<lparr>amount = 20, description = ''Transfer from Food''\<rparr>]\<rparr>],
            total_withdrawn = 50\<rparr>"

definition w_demo :: "real world" where
  "w_demo = \<lparr>objs = [deposit (init_category ''Food'') 100 ''pay'', init_category ''Clothing''],
             total_withdrawn = 0\<rparr>"



text \<open>A deposit of zero.\<close>

definition w_zero :: "real world" where
  "w_zero = \<lparr>objs = [\<lparr>name = ''Food'', balance = 0, amount_withdrawn = 0,
                        ledger = [\<lparr>amount = 0, description = ''nothing''\<rparr>]\<rparr>],
             total_withdrawn = 0\<rparr>"



text \<open>Categories for a chart: 15 and 85 withdrawn of a total of 100.\<close>

definition cat15 :: "real category" where
  "cat15 = \<lparr>name = ''food'', balance = 85, amount_withdrawn = 15, ledger = []\<rparr>"

definition cats_demo :: "real category list" where
  "cats_demo = [cat15, \<lparr>name = ''auto'', balance = 0, amount_withdrawn = 85, ledger = []\<rparr>]"

text \<open>
  A report over integer amounts. For an int \<open>i\<close>, \<open>f"{i:.2f}"\<close> is its digits followed by
  \<open>.00\<close>, and a float balance of that value prints as its digits followed by \<open>.0\<close> (below
  \<open>10 ** 16\<close>).
\<close>

definition format_2f_int :: "int \<Rightarrow> string" where
  "format_2f_int i = str_int i @ ''.00''"

definition str_float_int :: "int \<Rightarrow> string" where
  "str_float_int i = str_int i @ ''.0''"

definition cat_report :: "int category" where
  "cat_report = \<lparr>name = ''Food'', balance = 1999900, amount_withdrawn = 100,
     ledger = [\<lparr>amount = 2000000, description = ''initial deposit''\<rparr>,
               \<lparr>amount = - 100, description = ''restaurant and more food for dessert''\<rparr>]\<rparr>"

section \<open>Withdrawals\<close>

lemma withdraw_returns:
  "fst (withdraw self tot amt descr) = (\<not> amt > balance self)"
  by (simp add: withdraw_def check_funds_def)



section \<open>Calls on the store\<close>

lemma nth_upd: "xs[i := x] ! k = (if i = k \<and> i < length xs then x else xs ! k)"
  by (cases "i < length xs") (simp_all add: nth_list_update list_update_beyond)

lemma objs_call_deposit:
  "objs (call_deposit w i amt descr) = (objs w)[i := deposit (objs w ! i) amt descr]"
  and total_call_deposit: "total_withdrawn (call_deposit w i amt descr) = total_withdrawn w"
  by (simp_all add: call_deposit_def)

lemma objs_call_withdraw:
  "objs (snd (call_withdraw w i amt descr))
     = (objs w)[i := fst (snd (withdraw (objs w ! i) (total_withdrawn w) amt descr))]"
  and total_call_withdraw:
  "total_withdrawn (snd (call_withdraw w i amt descr))
     = snd (snd (withdraw (objs w ! i) (total_withdrawn w) amt descr))"
  and fst_call_withdraw:
  "fst (call_withdraw w i amt descr) = check_funds (objs w ! i) amt"
  by (simp_all add: call_withdraw_def withdraw_def split: prod.splits)

lemma length_call_deposit: "length (objs (call_deposit w i amt descr)) = length (objs w)"
  by (simp add: objs_call_deposit)

lemma length_call_withdraw:
  "length (objs (snd (call_withdraw w i amt descr))) = length (objs w)"
  by (simp add: objs_call_withdraw)

lemma name_withdraw: "name (fst (snd (withdraw c tot amt descr))) = name c"
  by (simp add: withdraw_def)

lemma name_call_withdraw:
  "name (objs (snd (call_withdraw w i amt descr)) ! k) = name (objs w ! k)"
  by (simp add: objs_call_withdraw nth_upd name_withdraw)

lemma fst_transfer: "fst (transfer w i amt j) = check_funds (objs w ! i) amt"
  by (simp add: transfer_def Let_def)

lemma snd_transfer:
  "snd (transfer w i amt j) =
     (if check_funds (objs w ! i) amt
      then call_deposit (snd (call_withdraw w i amt (''Transfer to '' @ name (objs w ! j)))) j amt
             (''Transfer from '' @ name (objs w ! i))
      else w)"
  by (simp add: transfer_def Let_def name_call_withdraw)



subsection \<open>Transfers\<close>

text \<open>
  C3. A transfer between two distinct categories that returns true lowers the source
  balance by the amount, raises the target balance by it, raises the source's amount
  withdrawn and the global total by it (once), and appends the entry
  \<open>{-amount, "Transfer to <target.name>"}\<close> to the source ledger and
  \<open>{amount, "Transfer from <source.name>"}\<close> to the target ledger.
\<close>

theorem transfer_succeeds:
  fixes w :: "'a::{ord,plus,minus,uminus} world"
  assumes "src < length (objs w)" and "tgt < length (objs w)" and "src \<noteq> tgt"
    and "fst (transfer w src amt tgt) = True"
  shows "balance (objs (snd (transfer w src amt tgt)) ! src) = balance (objs w ! src) - amt
       \<and> balance (objs (snd (transfer w src amt tgt)) ! tgt) = balance (objs w ! tgt) + amt
       \<and> amount_withdrawn (objs (snd (transfer w src amt tgt)) ! src)
           = amount_withdrawn (objs w ! src) + amt
       \<and> total_withdrawn (snd (transfer w src amt tgt)) = total_withdrawn w + amt
       \<and> ledger (objs (snd (transfer w src amt tgt)) ! src)
           = ledger (objs w ! src)
             @ [\<lparr>amount = - amt, description = ''Transfer to '' @ name (objs w ! tgt)\<rparr>]
       \<and> ledger (objs (snd (transfer w src amt tgt)) ! tgt)
           = ledger (objs w ! tgt)
             @ [\<lparr>amount = amt, description = ''Transfer from '' @ name (objs w ! src)\<rparr>]"
proof -
  from assms(4) have cf: "check_funds (objs w ! src) amt"
    by (simp add: transfer_def split: if_splits)
  show ?thesis
    using assms(1-3) cf
    by (simp add: transfer_def Let_def objs_call_deposit total_call_deposit
        objs_call_withdraw total_call_withdraw withdraw_def deposit_def)
qed

theorem transfer_succeeds_witness:
  "(0::nat) < length (objs w_demo) \<and> (1::nat) < length (objs w_demo) \<and> (0::nat) \<noteq> 1
   \<and> fst (transfer w_demo 0 30 1) = True
   \<and> balance (objs (snd (transfer w_demo 0 30 1)) ! 0) = 70
   \<and> balance (objs (snd (transfer w_demo 0 30 1)) ! 1) = 30
   \<and> amount_withdrawn (objs (snd (transfer w_demo 0 30 1)) ! 0) = 30
   \<and> total_withdrawn (snd (transfer w_demo 0 30 1)) = 30
   \<and> ledger (objs (snd (transfer w_demo 0 30 1)) ! 0)
       = [\<lparr>amount = 100, description = ''pay''\<rparr>,
          \<lparr>amount = - 30, description = ''Transfer to Clothing''\<rparr>]
   \<and> ledger (objs (snd (transfer w_demo 0 30 1)) ! 1)
       = [\<lparr>amount = 30, description = ''Transfer from Food''\<rparr>]"
proof -
  have h1: "(0::nat) < length (objs w_demo)" and h2: "(1::nat) < length (objs w_demo)"
    by (simp_all add: w_demo_def)
  have h3: "(0::nat) \<noteq> 1" by simp
  have h4: "fst (transfer w_demo 0 30 1) = True"
    by (simp add: fst_transfer w_demo_def check_funds_def deposit_def init_category_def)
  have o0: "objs w_demo ! 0 = \<lparr>name = ''Food'', balance = 100, amount_withdrawn = 0,
      ledger = [\<lparr>amount = 100, description = ''pay''\<rparr>]\<rparr>"
    and o1: "objs w_demo ! Suc 0 = \<lparr>name = ''Clothing'', balance = 0, amount_withdrawn = 0,
      ledger = []\<rparr>"
    and t: "total_withdrawn w_demo = 0"
    by (simp_all add: w_demo_def deposit_def init_category_def)
  from transfer_succeeds [OF h1 h2 h3 h4] h1 h2 h3 h4 show ?thesis
    by (simp add: o0 o1 t)
qed

subsection \<open>What one call does\<close>

lemma step_New:
  "step w (New n) = Some (r, w') \<longleftrightarrow> r = RNone \<and> w' = w\<lparr>objs := objs w @ [init_category n]\<rparr>"
  by auto

lemma step_Deposit:
  "step w (Deposit i amt descr) = Some (r, w') \<longleftrightarrow>
     i < length (objs w) \<and> r = RNone
     \<and> w' = w\<lparr>objs := (objs w)[i := deposit (objs w ! i) amt descr]\<rparr>"
  by (auto simp: call_deposit_def)

lemma step_Withdraw:
  "step w (Withdraw i amt descr) = Some (r, w') \<longleftrightarrow>
     i < length (objs w) \<and> r = RBool (check_funds (objs w ! i) amt)
     \<and> w' = (if check_funds (objs w ! i) amt
             then w\<lparr>objs := (objs w)[i := fst (snd (withdraw (objs w ! i) (total_withdrawn w) amt descr))],
                    total_withdrawn := total_withdrawn w + amt\<rparr>
             else w)"
  by (auto simp: call_withdraw_def withdraw_def split: prod.splits)

lemma step_Transfer:
  "step w (Transfer i amt j) = Some (r, w') \<longleftrightarrow>
     i < length (objs w) \<and> j < length (objs w) \<and> r = RBool (check_funds (objs w ! i) amt)
     \<and> w' = (if check_funds (objs w ! i) amt
             then call_deposit (snd (call_withdraw w i amt (''Transfer to '' @ name (objs w ! j))))
                    j amt (''Transfer from '' @ name (objs w ! i))
             else w)"
  using snd_transfer [of w i amt j] fst_transfer [of w i amt j]
  by (cases "transfer w i amt j") (auto simp del: append.simps)




lemma ledger_deposit:
  "ledger (deposit c amt descr) = ledger c @ [\<lparr>amount = amt, description = descr\<rparr>]"
  by (simp add: deposit_def)

lemma ledger_withdraw:
  "ledger (fst (snd (withdraw c tot amt descr)))
     = (if check_funds c amt then ledger c @ [\<lparr>amount = - amt, description = descr\<rparr>]
        else ledger c)"
  by (simp add: withdraw_def)




lemma step_length:
  assumes "step w x = Some (r, w')"
  shows "length (objs w') = (case x of New n \<Rightarrow> Suc (length (objs w)) | _ \<Rightarrow> length (objs w))"
  using assms
  by (cases x) (auto simp add: step_New step_Deposit step_Withdraw step_Transfer
      length_call_deposit length_call_withdraw withdraw_def simp del: append.simps step.simps)

text \<open>The ledger of an object after one call.\<close>

lemma step_ledger:
  assumes "step w x = Some (r, w')" and "k < length (objs w)"
  shows "ledger (objs w' ! k) =
     (case x of
        New n \<Rightarrow> ledger (objs w ! k)
      | Deposit i amt descr \<Rightarrow>
          ledger (objs w ! k)
          @ (if i = k then [\<lparr>amount = amt, description = descr\<rparr>] else [])
      | Withdraw i amt descr \<Rightarrow>
          ledger (objs w ! k)
          @ (if i = k \<and> check_funds (objs w ! i) amt
             then [\<lparr>amount = - amt, description = descr\<rparr>] else [])
      | Transfer i amt j \<Rightarrow>
          ledger (objs w ! k)
          @ (if i = k \<and> check_funds (objs w ! i) amt
             then [\<lparr>amount = - amt, description = ''Transfer to '' @ name (objs w ! j)\<rparr>]
             else [])
          @ (if j = k \<and> check_funds (objs w ! i) amt
             then [\<lparr>amount = amt, description = ''Transfer from '' @ name (objs w ! i)\<rparr>]
             else []))"
proof (cases x)
  case (New n)
  with assms show ?thesis by (auto simp: nth_append)
next
  case (Deposit i amt descr)
  with assms show ?thesis
    by (simp add: step_Deposit nth_upd ledger_deposit del: step.simps)
next
  case (Withdraw i amt descr)
  with assms show ?thesis
    by (simp add: step_Withdraw nth_upd ledger_withdraw del: step.simps)
next
  case (Transfer i amt j)
  with assms show ?thesis
    by (simp add: step_Transfer objs_call_deposit objs_call_withdraw nth_upd ledger_deposit
        ledger_withdraw del: append.simps step.simps)
qed

lemma step_new_ledger:
  assumes "step w x = Some (r, w')" and "k < length (objs w')" and "\<not> k < length (objs w)"
  shows "ledger (objs w' ! k) = []"
proof -
  from assms step_length [OF assms(1)] obtain n where x: "x = New n" and kk: "k = length (objs w)"
    by (cases x) auto
  from assms(1) x have "objs w' = objs w @ [init_category n]" by auto
  with kk show ?thesis by (simp add: init_category_def)
qed

subsection \<open>The example runs\<close>

lemmas exec_defs = init_world_def init_category_def call_deposit_def call_withdraw_def
  transfer_def withdraw_def deposit_def check_funds_def Let_def



lemma run_ops_demo: "run init_world ops_demo = Some w_end"
  by (simp add: ops_demo_def w_end_def exec_defs)

lemma trace_ops_demo:
  "trace init_world ops_demo
     = [CDeposit 0, CWithdraw 0 True, CWithdraw 1 False, CWithdraw 0 True, CDeposit 1]"
  by (simp add: ops_demo_def exec_defs)


section \<open>Invariants of the ledger\<close>

subsection \<open>Balance and ledger\<close>








subsection \<open>The withdrawal accumulators\<close>






subsection \<open>The length of the ledger\<close>

lemma calls_valid:
  assumes "step w x = Some (r, w')" and "\<not> k < length (objs w)"
  shows "count_list (calls w x) (CDeposit k) = 0 \<and> count_list (calls w x) (CWithdraw k b) = 0"
  using assms by (cases x) (auto split: if_splits)

lemma step_ledger_length:
  assumes "step w x = Some (r, w')" and "k < length (objs w)"
  shows "length (ledger (objs w' ! k)) =
     length (ledger (objs w ! k))
     + count_list (calls w x) (CDeposit k) + count_list (calls w x) (CWithdraw k True)"
  using step_ledger [OF assms]
  by (cases x) (auto simp: fst_call_withdraw simp del: append.simps)

lemma run_ledger_length:
  "run w xs = Some w' \<Longrightarrow> k < length (objs w') \<Longrightarrow>
   length (ledger (objs w' ! k)) =
     (if k < length (objs w) then length (ledger (objs w ! k)) else 0)
     + count_list (trace w xs) (CDeposit k) + count_list (trace w xs) (CWithdraw k True)"
proof (induction xs arbitrary: w)
  case Nil
  then show ?case by simp
next
  case (Cons x xs)
  from Cons.prems(1) obtain r w1 where s: "step w x = Some (r, w1)" and r: "run w1 xs = Some w'"
    by (auto split: option.splits)
  note IH = Cons.IH [OF r Cons.prems(2)]
  have tr: "trace w (x # xs) = calls w x @ trace w1 xs"
    using s by simp
  show ?case
  proof (cases "k < length (objs w)")
    case True
    with step_length [OF s] have k1: "k < length (objs w1)"
      by (cases x) auto
    from IH k1 step_ledger_length [OF s True] True show ?thesis
      by (simp add: tr del: trace.simps)
  next
    case False
    show ?thesis
    proof (cases "k < length (objs w1)")
      case True
      from IH True step_new_ledger [OF s True False] calls_valid [OF s False] False
      show ?thesis by (simp add: tr del: trace.simps)
    next
      case F1: False
      from IH F1 calls_valid [OF s False] False show ?thesis
        by (simp add: tr del: trace.simps)
    qed
  qed
qed

lemma step_ledger_nonzero:
  fixes w :: "'a::{zero,ord,group_add} world"
  assumes "step w x = Some (r, w')" and "nonzero_amount x"
    and "\<forall>k<length (objs w). \<forall>e\<in>set (ledger (objs w ! k)). amount e \<noteq> 0"
  shows "\<forall>k<length (objs w'). \<forall>e\<in>set (ledger (objs w' ! k)). amount e \<noteq> 0"
proof (intro allI impI)
  fix k assume k: "k < length (objs w')"
  show "\<forall>e\<in>set (ledger (objs w' ! k)). amount e \<noteq> 0"
  proof (cases "k < length (objs w)")
    case True
    from step_ledger [OF assms(1) True] assms(2) assms(3) [rule_format, OF True]
    show ?thesis by (cases x) (auto split: if_splits simp del: append.simps)
  next
    case False
    from step_new_ledger [OF assms(1) k False] show ?thesis by simp
  qed
qed

lemma run_ledger_nonzero:
  fixes w :: "'a::{zero,ord,group_add} world"
  shows "run w xs = Some w' \<Longrightarrow> list_all nonzero_amount xs
    \<Longrightarrow> \<forall>k<length (objs w). \<forall>e\<in>set (ledger (objs w ! k)). amount e \<noteq> 0
    \<Longrightarrow> \<forall>k<length (objs w'). \<forall>e\<in>set (ledger (objs w' ! k)). amount e \<noteq> 0"
proof (induction xs arbitrary: w)
  case Nil
  then show ?case by simp
next
  case (Cons x xs)
  from Cons.prems(1) obtain r w1 where s: "step w x = Some (r, w1)" and r: "run w1 xs = Some w'"
    by (auto split: option.splits)
  from Cons.prems(2) have nx: "nonzero_amount x" and nxs: "list_all nonzero_amount xs"
    by simp_all
  from Cons.IH [OF r nxs step_ledger_nonzero [OF s nx Cons.prems(3)]] show ?case .
qed

text \<open>
  C6 (amended). The ledger of a category has one entry for each \<open>deposit\<close> called on it and
  one for each \<open>withdraw\<close> on it that returned true (the two legs of a transfer included), and
  none for a refused withdrawal; and when every call was made with a non-zero amount, every
  entry has a non-zero amount.
\<close>

theorem ledger_length_counts:
  fixes w :: "'a::{zero,ord,group_add} world"
  assumes "run init_world xs = Some w" and "i < length (objs w)"
  shows "length (ledger (objs w ! i)) =
           count_list (trace init_world xs) (CDeposit i)
           + count_list (trace init_world xs) (CWithdraw i True)
       \<and> (list_all nonzero_amount xs \<longrightarrow>
            (\<forall>e\<in>set (ledger (objs w ! i)). amount e \<noteq> 0))"
proof -
  have e: "objs (init_world :: 'a world) = []"
    by (simp add: init_world_def)
  from run_ledger_length [OF assms] have 1: "length (ledger (objs w ! i)) =
           count_list (trace init_world xs) (CDeposit i)
           + count_list (trace init_world xs) (CWithdraw i True)"
    by (simp add: e)
  have 2: "list_all nonzero_amount xs \<longrightarrow> (\<forall>e\<in>set (ledger (objs w ! i)). amount e \<noteq> 0)"
  proof
    assume nz: "list_all nonzero_amount xs"
    have "\<forall>k<length (objs (init_world :: 'a world)).
            \<forall>e\<in>set (ledger (objs (init_world :: 'a world) ! k)). amount e \<noteq> 0"
      by (simp add: e)
    from run_ledger_nonzero [OF assms(1) nz this] assms(2)
    show "\<forall>e\<in>set (ledger (objs w ! i)). amount e \<noteq> 0" by simp
  qed
  from 1 2 show ?thesis by blast
qed

theorem ledger_length_counts_witness:
  "run init_world ops_demo = Some w_end \<and> 0 < length (objs w_end)
   \<and> list_all nonzero_amount ops_demo
   \<and> length (ledger (objs w_end ! 0)) = 3
   \<and> count_list (trace init_world ops_demo) (CDeposit 0) = 1
   \<and> count_list (trace init_world ops_demo) (CWithdraw 0 True) = 2
   \<and> list_all (\<lambda>e. amount e \<noteq> 0) (ledger (objs w_end ! 0))"
proof -
  have len: "0 < length (objs w_end)" by (simp add: w_end_def)
  have nz: "list_all nonzero_amount ops_demo" by (simp add: ops_demo_def)
  have c1: "count_list (trace init_world ops_demo) (CDeposit 0) = 1"
    and c2: "count_list (trace init_world ops_demo) (CWithdraw 0 True) = 2"
    by (simp_all add: trace_ops_demo)
  note T = ledger_length_counts [OF run_ops_demo len]
  from T c1 c2 have l: "length (ledger (objs w_end ! 0)) = 3" by simp
  from T nz have "\<forall>e\<in>set (ledger (objs w_end ! 0)). amount e \<noteq> 0" by blast
  then have a: "list_all (\<lambda>e. amount e \<noteq> 0) (ledger (objs w_end ! 0))"
    by (simp add: list_all_iff)
  show ?thesis by (intro conjI run_ops_demo len nz l c1 c2 a)
qed

text \<open>
  A deposit of 0 is recorded as an entry with amount 0.
\<close>

theorem ledger_length_counts_counterexample:
  "run init_world [New ''Food'', Deposit 0 0 ''nothing''] = Some w_zero
   \<and> ledger (objs w_zero ! 0) = [\<lparr>amount = 0, description = ''nothing''\<rparr>]
   \<and> amount (ledger (objs w_zero ! 0) ! 0) = 0"
  by (simp add: w_zero_def exec_defs)

section \<open>The report\<close>

lemma fold_lines:
  "fold (\<lambda>item string. string @ f item) xs s = s @ concat (map f xs)"
  by (induction xs arbitrary: s) simp_all

text \<open>
  C7. The report is the name centered among \<open>*\<close> in 30 characters (a longer name as it
  is; of an odd number of fill characters the extra one is on the right), a newline, then
  for each ledger entry in order a line of the first 23 characters of the description
  padded on the right to 23, the first 7 characters of the amount formatted with two
  decimals padded on the left to 7, and a newline, then \<open>Total: \<close> and the balance, with no
  newline after it.
\<close>

theorem str_category_layout:
  "str_category format_2f str_float c =
     (if 30 \<le> length (name c) then name c
      else replicate ((30 - length (name c)) div 2) (CHR ''*'') @ name c
           @ replicate (30 - length (name c) - (30 - length (name c)) div 2) (CHR ''*''))
     @ [CHR 0x0A]
     @ concat (map (\<lambda>item.
                 take 23 (description item)
                 @ replicate (23 - length (description item)) (CHR '' '')
                 @ replicate (7 - length (format_2f (amount item))) (CHR '' '')
                 @ take 7 (format_2f (amount item))
                 @ [CHR 0x0A]) (ledger c))
     @ ''Total: '' @ str_float (balance c)"
proof -
  have title: "center (name c) 30 (CHR ''*'') =
     (if 30 \<le> length (name c) then name c
      else replicate ((30 - length (name c)) div 2) (CHR ''*'') @ name c
           @ replicate (30 - length (name c) - (30 - length (name c)) div 2) (CHR ''*''))"
    by (simp add: center_def Let_def)
  have line: "ljust (take 23 d) 23 (CHR '' '') @ rjust (take 7 a) 7 (CHR '' '') @ [CHR 0x0A]
      = take 23 d @ replicate (23 - length d) (CHR '' '')
        @ replicate (7 - length a) (CHR '' '') @ take 7 a @ [CHR 0x0A]" for d a :: string
    by (simp add: ljust_def rjust_def min_def)
  have "str_category format_2f str_float c =
      (center (name c) 30 (CHR ''*'') @ [CHR 0x0A])
      @ concat (map (\<lambda>item. ljust (take 23 (description item)) 23 (CHR '' '')
                      @ rjust (take 7 (format_2f (amount item))) 7 (CHR '' '') @ [CHR 0x0A])
                  (ledger c))
      @ ''Total: '' @ str_float (balance c)"
    by (simp add: str_category_def Let_def fold_lines)
  then show ?thesis
    by (simp only: title line append_assoc)
qed

theorem str_category_layout_witness:
  "str_category format_2f_int str_float_int cat_report =
     ''*************Food*************\<newline>initial deposit        2000000\<newline>restaurant and more foo-100.00\<newline>Total: 1999900.0''"
  unfolding str_category_layout [of format_2f_int str_float_int cat_report]
  by code_simp

section \<open>The spend chart\<close>

subsection \<open>Writing cells\<close>

lemma length_set_cell: "length (set_cell a r c v) = length a"
  by (simp add: set_cell_def)

lemma length_row_set_cell: "length (set_cell a r c v ! r') = length (a ! r')"
  by (simp add: set_cell_def nth_upd)

lemma nth_set_cell:
  "set_cell a r c v ! r' ! c' =
     (if r = r' \<and> c = c' \<and> r < length a \<and> c < length (a ! r) then Some v else a ! r' ! c')"
  by (auto simp: set_cell_def nth_upd)

text \<open>A loop that writes one value down a column.\<close>

lemma length_fold_column:
  "length (fold (\<lambda>r a. set_cell a r c v) rs a) = length a"
  by (induction rs arbitrary: a) (simp_all add: length_set_cell)

lemma length_row_fold_column:
  "length (fold (\<lambda>r a. set_cell a r c v) rs a ! r') = length (a ! r')"
  by (induction rs arbitrary: a) (simp_all add: length_row_set_cell)

lemma nth_fold_column:
  "fold (\<lambda>r a. set_cell a r c v) rs a ! r' ! c' =
     (if c' = c \<and> r' \<in> set rs \<and> r' < length a \<and> c < length (a ! r') then Some v
      else a ! r' ! c')"
  by (induction rs arbitrary: a)
     (auto simp: nth_set_cell length_set_cell length_row_set_cell)







lemma length_put_label: "length (put_label a col nm longest_name) = length a"
proof -
  have "length (fold (\<lambda>(ch, index) a. set_cell a index col (Txt [ch])) ps a) = length a"
    for ps and a :: chart
    by (induction ps arbitrary: a) (auto simp: length_set_cell)
  then show ?thesis by (simp add: put_label_def)
qed

lemma length_row_put_label: "length (put_label a col nm longest_name ! r') = length (a ! r')"
proof -
  have "length (fold (\<lambda>(ch, index) a. set_cell a index col (Txt [ch])) ps a ! r') = length (a ! r')"
    for ps and a :: chart
    by (induction ps arbitrary: a) (auto simp: length_row_set_cell)
  then show ?thesis by (simp add: put_label_def)
qed

lemma nth_put_label:
  assumes "r' < 12"
  shows "put_label a col nm longest_name ! r' ! c' = a ! r' ! c'"
proof -
  have "\<forall>p\<in>set ps. r' \<noteq> snd p \<Longrightarrow>
        fold (\<lambda>(ch, index) a. set_cell a index col (Txt [ch])) ps a ! r' ! c' = a ! r' ! c'"
    for ps and a :: chart
    by (induction ps arbitrary: a) (auto simp: nth_set_cell)
  moreover have "\<forall>p\<in>set (zip (capitalize nm) [12..<12 + longest_name]). r' \<noteq> snd p"
    using assms by (auto dest!: set_zip_rightD)
  ultimately show ?thesis by (simp add: put_label_def)
qed

lemma length_put_markers: "length (put_markers a col p) = length a"
  by (simp add: put_markers_def length_fold_column)

lemma length_row_put_markers: "length (put_markers a col p ! r') = length (a ! r')"
  by (simp add: put_markers_def length_row_fold_column)

lemma nth_put_markers:
  "put_markers a col p ! r' ! c' =
     (if c' = col \<and> slice_index (length a) (10 - p div 10) \<le> r'
         \<and> r' < slice_index (length a) 11 \<and> r' < length a \<and> col < length (a ! r')
      then Some (Txt ''o'') else a ! r' ! c')"
  by (simp add: put_markers_def nth_fold_column)

subsection \<open>The array\<close>

lemma percentage_spent_nonzero:
  "tw \<noteq> 0 \<Longrightarrow> percentage_spent obj tw
     = Inr ((\<lfloor>(amount_withdrawn obj / tw) * 100\<rfloor> div 10) * 10)"
  by (simp add: percentage_spent_def)

lemma fill_columns_cells:
  fixes cs :: "'a::floor_ceiling category list"
  assumes "tw \<noteq> 0"
  shows "\<exists>b. fill_columns cs tw L cols a = Inr b \<and> length b = length a
     \<and> (\<forall>r'. length (b ! r') = length (a ! r'))
     \<and> (\<forall>r c. r < 11 \<longrightarrow> b ! r ! c =
          (if c \<in> set cols
              \<and> slice_index (length a)
                   (10 - ((\<lfloor>(amount_withdrawn (cs ! (c div 3 - 1)) / tw) * 100\<rfloor> div 10) * 10) div 10) \<le> r
              \<and> r < slice_index (length a) 11 \<and> r < length a \<and> c < length (a ! r)
           then Some (Txt ''o'') else a ! r ! c))"
proof (induction cols arbitrary: a)
  case Nil
  show ?case by simp
next
  case (Cons col cols)
  let ?p = "(\<lfloor>(amount_withdrawn (cs ! (col div 3 - 1)) / tw) * 100\<rfloor> div 10) * 10"
  let ?a' = "put_label (put_markers a col ?p) col (name (cs ! (col div 3 - 1))) L"
  have unf: "fill_columns cs tw L (col # cols) a = fill_columns cs tw L cols ?a'"
    by (simp add: percentage_spent_nonzero [OF assms] Let_def)
  have len: "length ?a' = length a"
    by (simp add: length_put_label length_put_markers)
  have lenr: "length (?a' ! r') = length (a ! r')" for r'
    by (simp add: length_row_put_label length_row_put_markers)
  have cell: "?a' ! r ! c =
      (if c = col \<and> slice_index (length a) (10 - ?p div 10) \<le> r
          \<and> r < slice_index (length a) 11 \<and> r < length a \<and> col < length (a ! r)
       then Some (Txt ''o'') else a ! r ! c)" if "r < 11" for r c
    using that by (simp add: nth_put_label nth_put_markers)
  from Cons.IH [of ?a'] obtain b where b: "fill_columns cs tw L cols ?a' = Inr b"
    and lb: "length b = length ?a'" and lbr: "\<forall>r'. length (b ! r') = length (?a' ! r')"
    and cb: "\<forall>r c. r < 11 \<longrightarrow> b ! r ! c =
          (if c \<in> set cols
              \<and> slice_index (length ?a')
                   (10 - ((\<lfloor>(amount_withdrawn (cs ! (c div 3 - 1)) / tw) * 100\<rfloor> div 10) * 10) div 10) \<le> r
              \<and> r < slice_index (length ?a') 11 \<and> r < length ?a' \<and> c < length (?a' ! r)
           then Some (Txt ''o'') else ?a' ! r ! c)"
    by blast
  have "b ! r ! c =
          (if c \<in> set (col # cols)
              \<and> slice_index (length a)
                   (10 - ((\<lfloor>(amount_withdrawn (cs ! (c div 3 - 1)) / tw) * 100\<rfloor> div 10) * 10) div 10) \<le> r
              \<and> r < slice_index (length a) 11 \<and> r < length a \<and> c < length (a ! r)
           then Some (Txt ''o'') else a ! r ! c)" if "r < 11" for r c
    using cb [rule_format, OF that, of c] cell [OF that, of c]
    unfolding len lenr by (cases "c = col") auto
  with b lb lbr len lenr unf show ?case by simp
qed

lemma py_max_len_nonempty: "xs \<noteq> [] \<Longrightarrow> \<exists>m. py_max_len xs = Inr m"
  by (cases xs) (simp_all add: py_max_len_def)

lemma py_range_columns:
  "map nat (py_range 3 (int n * 3 + 3) 3) = map (\<lambda>k. 3 * k + 3) [0..<n]"
proof -
  have "(int n * 3 + 3 - 3 + 3 - 1) div 3 = int n" by simp
  then show ?thesis
    by (simp add: py_range_def nat_add_distrib nat_mult_distrib ac_simps)
qed

lemma build_array_frame:
  "build_array cs tw =
     (case py_max_len (map name cs) of
        Inl e \<Rightarrow> Inl e
      | Inr longest \<Rightarrow>
          fill_columns cs tw (length longest) (map nat (py_range 3 (int (length cs) * 3 + 3) 3))
            (frame (length longest) (length cs)))"
  by (simp add: build_array_def frame_def Let_def split: sum.splits)









subsection \<open>The string\<close>

lemma fold_extends:
  assumes "\<And>x s. \<exists>t. f x s = s @ t"
  shows "\<exists>t. fold f xs s = s @ t"
proof (induction xs arbitrary: s)
  case Nil
  show ?case by simp
next
  case (Cons x xs)
  from assms obtain t1 where "f x s = s @ t1" by blast
  moreover from Cons.IH obtain t2 where "fold f xs (s @ t1) = (s @ t1) @ t2" by blast
  ultimately show ?case by simp
qed

lemma build_string_title:
  "\<exists>t. build_string chart = (''Percentage spent by category'' @ [CHR 0x0A]) @ t"
  unfolding build_string_def
proof (rule fold_extends, goal_cases)
  case (1 x s)
  obtain index row where x: "x = (index, row)" by (cases x)
  let ?g = "\<lambda>(subdex, cell) s.
                     (s @ (if subdex = 0
                           then (if index > 0 then '' '' else []) @ (if index \<ge> 10 then '' '' else [])
                           else [])) @ show_cell cell"
  have "\<exists>t. fold ?g (enumerate 0 row) s = s @ t"
    by (rule fold_extends) auto
  then obtain t where t: "fold ?g (enumerate 0 row) s = s @ t" ..
  show ?case
    by (simp only: x prod.case t) simp
qed

lemma spend_chart_returns:
  fixes cs :: "'a::floor_ceiling category list"
  assumes "cs \<noteq> []" and "tw \<noteq> 0"
  shows "\<exists>s. create_spend_chart cs tw = Inr s"
proof -
  from assms have "map name cs \<noteq> []" by simp
  from py_max_len_nonempty [OF this] obtain m where m: "py_max_len (map name cs) = Inr m" ..
  from fill_columns_cells [OF assms(2)] obtain b where
    "fill_columns cs tw (length m) (map nat (py_range 3 (int (length cs) * 3 + 3) 3))
       (frame (length m) (length cs)) = Inr b" by blast
  then show ?thesis by (simp add: create_spend_chart_def build_array_frame m)
qed

text \<open>
  C9. Whenever \<open>create_spend_chart\<close> returns a string, the string begins with the line
  \<open>Percentage spent by category\<close> and a newline.
\<close>

theorem spend_chart_title:
  assumes "create_spend_chart cs tw = Inr s"
  shows "take 29 s = ''Percentage spent by category'' @ [CHR 0x0A]"
proof -
  from assms obtain a where "s = build_string a"
    by (auto simp: create_spend_chart_def split: sum.splits)
  with build_string_title [of a] obtain t where
    "s = (''Percentage spent by category'' @ [CHR 0x0A]) @ t" by auto
  then show ?thesis by simp
qed

theorem spend_chart_title_witness:
  "create_spend_chart cats_demo 100 =
     Inr ''Percentage spent by category\<newline>100|       \<newline> 90|       \<newline> 80|    o  \<newline> 70|    o  \<newline> 60|    o  \<newline> 50|    o  \<newline> 40|    o  \<newline> 30|    o  \<newline> 20|    o  \<newline> 10| o  o  \<newline>  0| o  o  \<newline>    -------\<newline>     F  A  \<newline>     o  u  \<newline>     o  t  \<newline>     d  o  ''
   \<and> take 29 ''Percentage spent by category\<newline>100|       \<newline> 90|       \<newline> 80|    o  \<newline> 70|    o  \<newline> 60|    o  \<newline> 50|    o  \<newline> 40|    o  \<newline> 30|    o  \<newline> 20|    o  \<newline> 10| o  o  \<newline>  0| o  o  \<newline>    -------\<newline>     F  A  \<newline>     o  u  \<newline>     o  t  \<newline>     d  o  ''
       = ''Percentage spent by category'' @ [CHR 0x0A]"
proof -
  have c: "create_spend_chart cats_demo 100 =
     Inr ''Percentage spent by category\<newline>100|       \<newline> 90|       \<newline> 80|    o  \<newline> 70|    o  \<newline> 60|    o  \<newline> 50|    o  \<newline> 40|    o  \<newline> 30|    o  \<newline> 20|    o  \<newline> 10| o  o  \<newline>  0| o  o  \<newline>    -------\<newline>     F  A  \<newline>     o  u  \<newline>     o  t  \<newline>     d  o  ''"
    by code_simp
  show ?thesis by (intro conjI c spend_chart_title [OF c])
qed

subsection \<open>Failures\<close>

text \<open>
  C8. On a non-empty list of categories and a total of zero, \<open>create_spend_chart\<close> fails with
  the division by zero.
\<close>

theorem spend_chart_no_withdrawals:
  fixes cs :: "'a::floor_ceiling category list"
  assumes "cs \<noteq> []"
  shows "create_spend_chart cs 0 = Inl ZeroDivisionError"
proof -
  from assms have "map name cs \<noteq> []" by simp
  from py_max_len_nonempty [OF this] obtain m where m: "py_max_len (map name cs) = Inr m" ..
  from assms obtain n where n: "length cs = Suc n" by (cases cs) auto
  have cols: "map (\<lambda>k. 3 * k + 3) [0..<Suc n] = 3 # map (\<lambda>k. 3 * k + 3) [1..<Suc n]"
    by (simp add: upt_rec)
  have "build_array cs (0::'a) = Inl ZeroDivisionError"
    unfolding build_array_frame m py_range_columns n cols
    by (simp add: percentage_spent_def Let_def)
  then show ?thesis by (simp add: create_spend_chart_def)
qed

theorem spend_chart_no_withdrawals_witness:
  "[init_category ''Food'' :: real category] \<noteq> []
   \<and> create_spend_chart [init_category ''Food'' :: real category] 0 = Inl ZeroDivisionError"
proof -
  have ne: "[init_category ''Food'' :: real category] \<noteq> []" by simp
  show ?thesis by (intro conjI ne spend_chart_no_withdrawals [OF ne])
qed

text \<open>
  C10. On the empty list \<open>create_spend_chart\<close> fails with the \<open>ValueError\<close> of \<open>max\<close>, whatever
  the total.
\<close>

theorem spend_chart_empty_list: "create_spend_chart [] tw = Inl ValueError"
  by (simp add: create_spend_chart_def build_array_def py_max_len_def)

theorem spend_chart_empty_list_witness:
  "create_spend_chart ([] :: real category list) 5 = Inl ValueError"
  by (rule spend_chart_empty_list)

end
